theory Spec2Isabelle
  imports Main
begin

section \<open>JavaScript values and operators used by AllyWrapper.vue\<close>

text \<open>
  Strings are \<open>string\<close>; a value of type \<open>string | undefined\<close> is a \<open>string option\<close>
  (\<open>None\<close> is \<open>undefined\<close>). A string is truthy exactly when it is not empty.
\<close>

definition truthy :: "string \<Rightarrow> bool" where
  "truthy s = (s \<noteq> [])"

text \<open>\<^verbatim>\<open>a || b\<close> on strings: the left operand when it is truthy, else the right one.\<close>

definition or_else :: "string \<Rightarrow> string \<Rightarrow> string" where
  "or_else a b = (if truthy a then a else b)"

text \<open>\<^verbatim>\<open>[...].filter(Boolean)\<close> on an array of \<open>string | undefined\<close>: drops \<open>undefined\<close>
  and the empty string, keeps the order.\<close>

fun filter_Boolean :: "string option list \<Rightarrow> string list" where
  "filter_Boolean [] = []"
| "filter_Boolean (None # xs) = filter_Boolean xs"
| "filter_Boolean (Some s # xs) =
     (if truthy s then s # filter_Boolean xs else filter_Boolean xs)"

text \<open>\<^verbatim>\<open>Array.from(new Set(ids))\<close>: a Set keeps insertion order and ignores an element
  that it already holds, so the first occurrence of every element survives.\<close>

definition Set_add :: "'a list \<Rightarrow> 'a \<Rightarrow> 'a list" where
  "Set_add seen x = (if x \<in> set seen then seen else seen @ [x])"

definition Array_from_Set :: "'a list \<Rightarrow> 'a list" where
  "Array_from_Set xs = foldl Set_add [] xs"

text \<open>\<^verbatim>\<open>xs.join(sep)\<close>.\<close>

fun join :: "string \<Rightarrow> string list \<Rightarrow> string" where
  "join sep [] = []"
| "join sep [x] = x"
| "join sep (x # y # ys) = x @ sep @ join sep (y # ys)"

section \<open>Props, slots, emits and the injected form context\<close>

text \<open>\<open>modelValue: string | number\<close>. The component never computes with the number, so
  its representation is a type parameter.\<close>

datatype 'n model_value = StringValue string | NumberValue 'n

text \<open>The props after \<^verbatim>\<open>withDefaults\<close>: \<open>required\<close>, \<open>errorMessage\<close> and
  \<open>reserveErrorSpace\<close> always hold a value, \<open>ariaDescribedby\<close> and \<open>autocomplete\<close>
  may be \<open>undefined\<close>. The field \<open>id\<close> is written \<open>id'\<close>.\<close>

record 'n Props =
  id' :: string
  label :: string
  modelValue :: "'n model_value"
  required :: bool
  ariaDescribedby :: "string option"
  errorMessage :: string
  reserveErrorSpace :: bool
  autocomplete :: "string option"

text \<open>\<^verbatim>\<open>useSlots()\<close>: only the presence of the \<open>helptext\<close> slot is read.\<close>

record Slots =
  helptext :: bool

text \<open>\<^verbatim>\<open>defineEmits(['update:modelValue', 'blur'])\<close>.\<close>

datatype 'n emit = Update_modelValue "'n model_value" | Blur

text \<open>
  The object injected under \<open>AllyFormKey\<close>. Its implementation is not part of the
  component, so it is a parameter: two methods acting on a state \<open>'a\<close> owned by the form.
  \<^verbatim>\<open>inject(AllyFormKey, null)\<close> is an \<open>option\<close>: \<open>None\<close> is \<open>null\<close>.
\<close>

record 'a AllyFormContext =
  updateErrorState :: "string \<Rightarrow> string \<Rightarrow> 'a \<Rightarrow> 'a"
  clearErrorState :: "string \<Rightarrow> 'a \<Rightarrow> 'a"

text \<open>A form context that only records the calls it receives, in order.\<close>

datatype aggregator_call =
  UpdateErrorState string string
| ClearErrorState string

definition recorder :: "aggregator_call list AllyFormContext" where
  "recorder =
     \<lparr>updateErrorState = (\<lambda>fieldId message calls. calls @ [UpdateErrorState fieldId message]),
      clearErrorState = (\<lambda>fieldId calls. calls @ [ClearErrorState fieldId])\<rparr>"

text \<open>Replaying a recorded list of calls on any form context.\<close>

fun replay :: "'a AllyFormContext \<Rightarrow> aggregator_call list \<Rightarrow> 'a \<Rightarrow> 'a" where
  "replay f [] s = s"
| "replay f (UpdateErrorState i m # cs) s = replay f cs (updateErrorState f i m s)"
| "replay f (ClearErrorState i # cs) s = replay f cs (clearErrorState f i s)"

section \<open>Watchers and the unmount hook\<close>

text \<open>
  \<^verbatim>\<open>watch(() => props.errorMessage, (newMessage, oldMessage) => {
    if (allyForm) { allyForm.updateErrorState(props.id, newMessage || ''); }
  }, { immediate: true })\<close>
  \<open>props\<close> is the props object at the time the callback runs; \<open>oldMessage\<close> is
  \<open>undefined\<close> on the immediate call.
\<close>

definition errorMessage_watcher ::
  "'a AllyFormContext option \<Rightarrow> 'n Props \<Rightarrow> string \<Rightarrow> string option \<Rightarrow> 'a \<Rightarrow> 'a" where
  "errorMessage_watcher allyForm props newMessage oldMessage s =
     (case allyForm of
        None \<Rightarrow> s
      | Some f \<Rightarrow> updateErrorState f (id' props) (or_else newMessage []) s)"

text \<open>
  \<^verbatim>\<open>watch(() => props.id, (newId, oldId) => {
    if (allyForm && oldId && props.errorMessage) { allyForm.clearErrorState(oldId); }
    if (allyForm) { allyForm.updateErrorState(newId, props.errorMessage || ''); }
  })\<close>
\<close>

definition id_watcher ::
  "'a AllyFormContext option \<Rightarrow> 'n Props \<Rightarrow> string \<Rightarrow> string \<Rightarrow> 'a \<Rightarrow> 'a" where
  "id_watcher allyForm props newId oldId s =
     (let s1 = (case allyForm of
                  None \<Rightarrow> s
                | Some f \<Rightarrow>
                    if truthy oldId \<and> truthy (errorMessage props)
                    then clearErrorState f oldId s else s)
      in case allyForm of
           None \<Rightarrow> s1
         | Some f \<Rightarrow> updateErrorState f newId (or_else (errorMessage props) []) s1)"

text \<open>\<^verbatim>\<open>onUnmounted(() => { if (allyForm) { allyForm.clearErrorState(props.id); } })\<close>\<close>

definition onUnmounted_hook :: "'a AllyFormContext option \<Rightarrow> 'n Props \<Rightarrow> 'a \<Rightarrow> 'a" where
  "onUnmounted_hook allyForm props s =
     (case allyForm of None \<Rightarrow> s | Some f \<Rightarrow> clearErrorState f (id' props) s)"

section \<open>Computed values\<close>

text \<open>\<^verbatim>\<open>computed({ get: () => props.modelValue, set: (newValue) => emit('update:modelValue', newValue) })\<close>\<close>

definition value_get :: "'n Props \<Rightarrow> 'n model_value" where
  "value_get props = modelValue props"

definition value_set :: "'n model_value \<Rightarrow> 'n emit list \<Rightarrow> 'n emit list" where
  "value_set newValue emitted = emitted @ [Update_modelValue newValue]"

definition helpTextId :: "'n Props \<Rightarrow> string" where
  "helpTextId props = id' props @ ''-help''"

definition errorTextId :: "'n Props \<Rightarrow> string" where
  "errorTextId props = id' props @ ''-error''"

definition labelId :: "'n Props \<Rightarrow> string" where
  "labelId props = id' props @ ''-label''"

definition isInvalid :: "'n Props \<Rightarrow> bool" where
  "isInvalid props = truthy (errorMessage props)"

text \<open>
  \<^verbatim>\<open>const ids = [props.ariaDescribedby,
                slots.helptext ? helpTextId.value : undefined,
                isInvalid.value ? errorTextId.value : undefined].filter(Boolean);
  const uniqueIds = Array.from(new Set(ids)).filter(id => id !== labelId.value);
  return uniqueIds.length ? uniqueIds.join(' ') : undefined;\<close>
\<close>

definition ids :: "'n Props \<Rightarrow> Slots \<Rightarrow> string list" where
  "ids props slots =
     filter_Boolean
       [ariaDescribedby props,
        if helptext slots then Some (helpTextId props) else None,
        if isInvalid props then Some (errorTextId props) else None]"

definition uniqueIds :: "'n Props \<Rightarrow> Slots \<Rightarrow> string list" where
  "uniqueIds props slots =
     filter (\<lambda>i. i \<noteq> labelId props) (Array_from_Set (ids props slots))"

definition describedBy :: "'n Props \<Rightarrow> Slots \<Rightarrow> string option" where
  "describedBy props slots =
     (let u = uniqueIds props slots
      in if length u \<noteq> 0 then Some (join '' '' u) else None)"

text \<open>
  \<open>describedBy\<close> above is the getter of the computed. The computed itself keeps the
  value of its last evaluation and is evaluated again only when the value of something
  reactive that this evaluation read has changed since. The getter reads
  \<open>props.ariaDescribedby\<close> and \<open>isInvalid\<close> always, and the id through \<open>helpTextId\<close>
  (when \<open>slots.helptext\<close> is truthy), through \<open>errorTextId\<close> (when \<open>isInvalid\<close>) and
  through \<open>labelId\<close> (in the filter callback, so when the deduplicated array has an
  element). The object \<open>useSlots()\<close> returns is not reactive: reading \<open>slots.helptext\<close>
  registers nothing, and a later change of the slot does not cause an evaluation.
\<close>

record describedBy_cache =
  cached :: "string option"
  reads_id :: bool

definition describedBy_evaluate :: "'n Props \<Rightarrow> Slots \<Rightarrow> describedBy_cache" where
  "describedBy_evaluate props slots =
     \<lparr>cached = describedBy props slots,
      reads_id = (helptext slots \<or> isInvalid props \<or> Array_from_Set (ids props slots) \<noteq> [])\<rparr>"

section \<open>The template\<close>

text \<open>
  What the template renders, as data: the root element's \<open>ally-has-error\<close> class, the
  \<open>label\<close> element (\<open>v-if="label"\<close>), the props bound on the \<open>control\<close> slot, the
  \<open>small\<close> element around the \<open>helptext\<close> slot (\<open>v-if="$slots.helptext"\<close>) and the
  \<open>error-text\<close> element (\<open>v-if="isInvalid || reserveErrorSpace"\<close>). The template reads
  props and \<open>$slots.helptext\<close> as they are at the time of the render, and
  \<open>describedBy\<close> through the computed: the third argument is the value the computed
  holds then.
\<close>

record LabelElement =
  label_id :: string
  label_for :: string
  label_text :: string
  required_marker :: bool

record ControlSlotProps =
  slot_id :: string
  slot_isInvalid :: bool
  slot_describedBy :: "string option"
  slot_labelId :: string
  slot_required :: bool
  slot_autocomplete :: "string option"

record ErrorElement =
  error_id :: string
  reserve_space :: bool
  error_text :: string

record Rendered =
  ally_has_error :: bool
  label_element :: "LabelElement option"
  control_slot :: ControlSlotProps
  helptext_element_id :: "string option"
  error_element :: "ErrorElement option"

definition render :: "'n Props \<Rightarrow> Slots \<Rightarrow> string option \<Rightarrow> Rendered" where
  "render props slots describedBy_now =
     \<lparr>ally_has_error = isInvalid props,
      label_element =
        (if truthy (label props)
         then Some \<lparr>label_id = labelId props, label_for = id' props,
                    label_text = label props, required_marker = required props\<rparr>
         else None),
      control_slot =
        \<lparr>slot_id = id' props, slot_isInvalid = isInvalid props,
         slot_describedBy = describedBy_now, slot_labelId = labelId props,
         slot_required = required props, slot_autocomplete = autocomplete props\<rparr>,
      helptext_element_id = (if helptext slots then Some (helpTextId props) else None),
      error_element =
        (if isInvalid props \<or> reserveErrorSpace props
         then Some \<lparr>error_id = errorTextId props,
                    reserve_space = (reserveErrorSpace props \<and> \<not> isInvalid props),
                    error_text = errorMessage props\<rparr>
         else None)\<rparr>"

section \<open>The component instance and its life cycle\<close>

text \<open>
  A mounted instance holds the props and slots its parent passed last, the events it
  has emitted so far and the cache of the \<open>describedBy\<close> computed. The state of the form context lives outside the instance and is
  threaded through every callback.
\<close>

record 'n wrapper =
  props :: "'n Props"
  slots :: Slots
  emitted :: "'n emit list"
  describedBy_ref :: describedBy_cache

text \<open>\<open>describedBy.value\<close> as the template and the \<open>control\<close> slot get it.\<close>

definition describedBy_value :: "'n wrapper \<Rightarrow> string option" where
  "describedBy_value c = cached (describedBy_ref c)"

text \<open>The computed is evaluated again, on the props and slots of that moment, when it is
  dirty; otherwise it keeps its value.\<close>

definition describedBy_refresh :: "bool \<Rightarrow> 'n wrapper \<Rightarrow> 'n wrapper" where
  "describedBy_refresh dirty c =
     (if dirty then c\<lparr>describedBy_ref := describedBy_evaluate (props c) (slots c)\<rparr> else c)"

text \<open>
  What can happen to a mounted instance: the parent passes a new value for one prop or
  changes the \<open>helptext\<close> slot, or the \<open>value\<close> computed is assigned. Each event is
  handled to completion before the next one.
\<close>

datatype 'n event =
  Set_id string
| Set_label string
| Set_modelValue "'n model_value"
| Set_required bool
| Set_ariaDescribedby "string option"
| Set_errorMessage string
| Set_reserveErrorSpace bool
| Set_autocomplete "string option"
| Set_helptext bool
| Assign_value "'n model_value"

text \<open>
  Running \<^verbatim>\<open><script setup>\<close>: the only callback that runs is the \<open>errorMessage\<close>
  watcher, because of \<open>immediate: true\<close>; it receives the current message and
  \<open>undefined\<close>. The \<open>id\<close> watcher is not immediate. The first render evaluates
  \<open>describedBy\<close>.
\<close>

definition mount ::
  "'a AllyFormContext option \<Rightarrow> 'n Props \<Rightarrow> Slots \<Rightarrow> 'a \<Rightarrow> 'n wrapper \<times> 'a" where
  "mount allyForm p sl s =
     (\<lparr>props = p, slots = sl, emitted = [], describedBy_ref = describedBy_evaluate p sl\<rparr>,
      errorMessage_watcher allyForm p (errorMessage p) None s)"

text \<open>
  A watcher's callback runs when the watched getter returns a value different from the
  one it returned before, after the prop has been written: the callback reads the new
  props. No other prop is watched. The render that follows reads \<open>describedBy\<close>, which
  is dirty when \<open>isInvalid\<close> has changed, when \<open>ariaDescribedby\<close> has changed, or when the
  id has changed and the last evaluation read it; a change of the \<open>helptext\<close> slot or of
  another prop leaves the computed as it is.
\<close>

fun step :: "'a AllyFormContext option \<Rightarrow> 'n event \<Rightarrow> 'n wrapper \<times> 'a \<Rightarrow> 'n wrapper \<times> 'a" where
  "step allyForm (Set_errorMessage m) (c, s) =
     (let oldMessage = errorMessage (props c);
          c0 = c\<lparr>props := (props c)\<lparr>errorMessage := m\<rparr>\<rparr>;
          c' = describedBy_refresh (isInvalid (props c0) \<noteq> isInvalid (props c)) c0
      in if m \<noteq> oldMessage
         then (c', errorMessage_watcher allyForm (props c') m (Some oldMessage) s)
         else (c', s))"
| "step allyForm (Set_id i) (c, s) =
     (let oldId = id' (props c);
          c0 = c\<lparr>props := (props c)\<lparr>id' := i\<rparr>\<rparr>;
          c' = describedBy_refresh (i \<noteq> oldId \<and> reads_id (describedBy_ref c)) c0
      in if i \<noteq> oldId
         then (c', id_watcher allyForm (props c') i oldId s)
         else (c', s))"
| "step allyForm (Set_label l) (c, s) = (c\<lparr>props := (props c)\<lparr>label := l\<rparr>\<rparr>, s)"
| "step allyForm (Set_modelValue v) (c, s) = (c\<lparr>props := (props c)\<lparr>modelValue := v\<rparr>\<rparr>, s)"
| "step allyForm (Set_required r) (c, s) = (c\<lparr>props := (props c)\<lparr>required := r\<rparr>\<rparr>, s)"
| "step allyForm (Set_ariaDescribedby a) (c, s) =
     (describedBy_refresh (a \<noteq> ariaDescribedby (props c))
        (c\<lparr>props := (props c)\<lparr>ariaDescribedby := a\<rparr>\<rparr>), s)"
| "step allyForm (Set_reserveErrorSpace r) (c, s) =
     (c\<lparr>props := (props c)\<lparr>reserveErrorSpace := r\<rparr>\<rparr>, s)"
| "step allyForm (Set_autocomplete a) (c, s) =
     (c\<lparr>props := (props c)\<lparr>autocomplete := a\<rparr>\<rparr>, s)"
| "step allyForm (Set_helptext h) (c, s) = (c\<lparr>slots := (slots c)\<lparr>helptext := h\<rparr>\<rparr>, s)"
| "step allyForm (Assign_value v) (c, s) = (c\<lparr>emitted := value_set v (emitted c)\<rparr>, s)"

fun run :: "'a AllyFormContext option \<Rightarrow> 'n event list \<Rightarrow> 'n wrapper \<times> 'a \<Rightarrow> 'n wrapper \<times> 'a" where
  "run allyForm [] st = st"
| "run allyForm (e # es) st = run allyForm es (step allyForm e st)"

text \<open>Unmounting runs the \<open>onUnmounted\<close> hook on the props the instance holds then.\<close>

definition unmount :: "'a AllyFormContext option \<Rightarrow> 'n wrapper \<times> 'a \<Rightarrow> 'n wrapper \<times> 'a" where
  "unmount allyForm st = (fst st, onUnmounted_hook allyForm (props (fst st)) (snd st))"

text \<open>A whole life: mount, a sequence of events, unmount.\<close>

definition lifecycle ::
  "'a AllyFormContext option \<Rightarrow> 'n Props \<Rightarrow> Slots \<Rightarrow> 'n event list \<Rightarrow> 'a \<Rightarrow> 'n wrapper \<times> 'a" where
  "lifecycle allyForm p sl es s = unmount allyForm (run allyForm es (mount allyForm p sl s))"

text \<open>The sequence \<open>ms\<close> is a sequence of changes starting from \<open>cur\<close>: every element
  differs from the one before it.\<close>

fun changes :: "string \<Rightarrow> string list \<Rightarrow> bool" where
  "changes cur [] = True"
| "changes cur (m # ms) = (m \<noteq> cur \<and> changes m ms)"

text \<open>The presence of help content stays \<open>h\<close> throughout the events.\<close>

fun helptext_kept :: "bool \<Rightarrow> 'n event list \<Rightarrow> bool" where
  "helptext_kept h [] = True"
| "helptext_kept h (Set_helptext h' # es) = (h' = h \<and> helptext_kept h es)"
| "helptext_kept h (e # es) = helptext_kept h es"

text \<open>The computed holds what its getter gives on the current props and slots.\<close>

definition fresh :: "'n wrapper \<Rightarrow> bool" where
  "fresh c = (describedBy_ref c = describedBy_evaluate (props c) (slots c))"

section \<open>Tokens of an attribute value\<close>

text \<open>
  \<open>aria-describedby\<close> is read as a list of tokens separated by ASCII whitespace
  (space, tab, line feed, form feed, carriage return). An absent attribute has no token.
\<close>

definition is_space :: "char \<Rightarrow> bool" where
  "is_space c = (c \<in> set [CHR '' '', CHR 0x09, CHR 0x0A, CHR 0x0C, CHR 0x0D])"

fun split_tokens :: "string \<Rightarrow> string \<Rightarrow> string list" where
  "split_tokens cur [] = (if cur = [] then [] else [cur])"
| "split_tokens cur (c # cs) =
     (if is_space c
      then (if cur = [] then split_tokens [] cs else cur # split_tokens [] cs)
      else split_tokens (cur @ [c]) cs)"

definition tokens :: "string option \<Rightarrow> string list" where
  "tokens a = (case a of None \<Rightarrow> [] | Some s \<Rightarrow> split_tokens [] s)"

definition no_space :: "string \<Rightarrow> bool" where
  "no_space s = list_all (\<lambda>c. \<not> is_space c) s"

section \<open>The description list as the specification words it\<close>

text \<open>
  Order-preserving removal of duplicates: the first occurrence of every element stays.
\<close>

fun dedup :: "'a list \<Rightarrow> 'a list" where
  "dedup [] = []"
| "dedup (x # xs) = x # dedup (filter (\<lambda>y. y \<noteq> x) xs)"

text \<open>
  The list \<open>[ariaDescribedbyExtra, helpTextId if help content is present, errorTextId if
  errorMessage is non-empty]\<close>, and its deduplicated, order-preserving, space-separated
  join with \<open>labelId\<close> excluded.
\<close>

definition spec_list :: "'n Props \<Rightarrow> Slots \<Rightarrow> string list" where
  "spec_list p sl =
     (case ariaDescribedby p of None \<Rightarrow> [] | Some e \<Rightarrow> [e])
     @ (if helptext sl then [id' p @ ''-help''] else [])
     @ (if errorMessage p \<noteq> [] then [id' p @ ''-error''] else [])"

definition spec_join :: "'n Props \<Rightarrow> Slots \<Rightarrow> string" where
  "spec_join p sl = join '' '' (filter (\<lambda>t. t \<noteq> id' p @ ''-label'') (dedup (spec_list p sl)))"

section \<open>Sample inputs\<close>

definition field_f :: "int Props" where
  "field_f =
     \<lparr>id' = ''f'', label = ''Name'', modelValue = StringValue ''Ada'', required = False,
      ariaDescribedby = Some ''ext1'', errorMessage = ''required'',
      reserveErrorSpace = True, autocomplete = None\<rparr>"

definition with_help :: Slots where
  "with_help = \<lparr>helptext = True\<rparr>"

definition no_help :: Slots where
  "no_help = \<lparr>helptext = False\<rparr>"

definition mounted_f :: "int wrapper" where
  "mounted_f =
     \<lparr>props = field_f, slots = with_help, emitted = [],
      describedBy_ref = describedBy_evaluate field_f with_help\<rparr>"

section \<open>Calls observed by the form context\<close>

text \<open>
  The instance a step returns does not depend on the form context, and a run against
  any form context does to its state what replaying the recorded calls does: the list
  the recorder collects is the sequence of calls the component makes.
\<close>

lemma or_else_empty: "or_else m [] = m"
  by (simp add: or_else_def truthy_def)

lemma refresh_fields [simp]:
  "props (describedBy_refresh d c) = props c"
  "slots (describedBy_refresh d c) = slots c"
  "emitted (describedBy_refresh d c) = emitted c"
  by (simp_all add: describedBy_refresh_def)

lemma fst_step_indep: "fst (step af e (c, s)) = fst (step af' e (c, s'))"
  by (cases e) (simp_all add: Let_def)

lemma snd_step_None: "snd (step None e (c, s)) = s"
  by (cases e) (simp_all add: Let_def errorMessage_watcher_def id_watcher_def)

lemma fst_run_indep: "fst (run af es (c, s)) = fst (run af' es (c, s'))"
proof (induction es arbitrary: c s s')
  case Nil
  show ?case by simp
next
  case (Cons e es)
  obtain c1 s1 where a: "step af e (c, s) = (c1, s1)" by (cases "step af e (c, s)")
  obtain c2 s2 where b: "step af' e (c, s') = (c2, s2)" by (cases "step af' e (c, s')")
  from a b fst_step_indep [of af e c s af' s'] have "c1 = c2" by simp
  with a b Cons.IH [of c1 s1 s2] show ?case by simp
qed

lemma snd_run_None: "snd (run None es (c, s)) = s"
proof (induction es arbitrary: c)
  case Nil
  show ?case by simp
next
  case (Cons e es)
  obtain c1 s1 where a: "step None e (c, s) = (c1, s1)" by (cases "step None e (c, s)")
  with snd_step_None [of e c s] have "s1 = s" by simp
  with a Cons.IH [of c1] show ?case by simp
qed

lemma step_recorder_append:
  "snd (step (Some recorder) e (c, calls)) = calls @ snd (step (Some recorder) e (c, []))"
  by (cases e) (simp_all add: Let_def errorMessage_watcher_def id_watcher_def recorder_def)

lemma run_recorder_append:
  "snd (run (Some recorder) es (c, calls)) = calls @ snd (run (Some recorder) es (c, []))"
proof (induction es arbitrary: c calls)
  case Nil
  show ?case by simp
next
  case (Cons e es)
  obtain c1 s1 where a: "step (Some recorder) e (c, calls) = (c1, s1)"
    by (cases "step (Some recorder) e (c, calls)")
  obtain c2 s2 where b: "step (Some recorder) e (c, []) = (c2, s2)"
    by (cases "step (Some recorder) e (c, [])")
  from a b fst_step_indep [of "Some recorder" e c calls "Some recorder" "[]"] have c: "c1 = c2" by simp
  from a b step_recorder_append [of e c calls] have s: "s1 = calls @ s2" by simp
  have "snd (run (Some recorder) es (c1, s1)) = s1 @ snd (run (Some recorder) es (c1, []))"
    by (rule Cons.IH)
  moreover have "snd (run (Some recorder) es (c2, s2)) = s2 @ snd (run (Some recorder) es (c2, []))"
    by (rule Cons.IH)
  ultimately show ?case using a b c s by simp
qed

lemma replay_append: "replay f (xs @ ys) s = replay f ys (replay f xs s)"
  by (induction f xs s rule: replay.induct) simp_all

lemma step_replay:
  "snd (step (Some f) e (c, s)) = replay f (snd (step (Some recorder) e (c, []))) s"
  by (cases e) (simp_all add: Let_def errorMessage_watcher_def id_watcher_def recorder_def)

lemma run_replay:
  "snd (run (Some f) es (c, s)) = replay f (snd (run (Some recorder) es (c, []))) s"
proof (induction es arbitrary: c s)
  case Nil
  show ?case by simp
next
  case (Cons e es)
  obtain c1 s1 where a: "step (Some f) e (c, s) = (c1, s1)"
    by (cases "step (Some f) e (c, s)")
  obtain c2 s2 where b: "step (Some recorder) e (c, []) = (c2, s2)"
    by (cases "step (Some recorder) e (c, [])")
  from a b fst_step_indep [of "Some f" e c s "Some recorder" "[]"] have c: "c1 = c2" by simp
  from a b step_replay [of f e c s] have s: "s1 = replay f s2 s" by simp
  have "snd (run (Some recorder) es (c2, s2)) = s2 @ snd (run (Some recorder) es (c2, []))"
    by (rule run_recorder_append)
  with a b c s Cons.IH [of c1 s1] show ?case by (simp add: replay_append)
qed

subsection \<open>Initial synchronisation\<close>

text \<open>
  Claim C2. Mounting with a form context present makes exactly one call,
  \<open>updateErrorState(id, errorMessage)\<close>, also when the message is empty, and it comes
  before every call of later events: the calls of mount followed by any events are this
  call followed by the calls of the events.
\<close>

theorem mount_reports_once:
  "snd (mount (Some recorder) p sl []) = [UpdateErrorState (id' p) (errorMessage p)]
   \<and> snd (run (Some recorder) es (mount (Some recorder) p sl []))
       = UpdateErrorState (id' p) (errorMessage p)
         # snd (run (Some recorder) es (fst (mount (Some recorder) p sl []), []))"
proof -
  let ?M = "mount (Some recorder) p sl []"
  have s: "snd ?M = [UpdateErrorState (id' p) (errorMessage p)]"
    by (simp add: mount_def errorMessage_watcher_def recorder_def or_else_empty)
  have "snd (run (Some recorder) es ?M) = snd ?M @ snd (run (Some recorder) es (fst ?M, []))"
    using run_recorder_append [of es "fst ?M" "snd ?M"] by simp
  then show ?thesis by (simp only: s append_Cons append_Nil simp_thms)
qed

text \<open>
  Mounting field \<open>f\<close> with an empty message reports the empty message.
\<close>

theorem mount_reports_once_witness:
  "snd (mount (Some recorder) (field_f\<lparr>errorMessage := []\<rparr>) with_help [])
     = [UpdateErrorState ''f'' []]"
  using mount_reports_once [of "field_f\<lparr>errorMessage := []\<rparr>" with_help "[]"]
  by (simp add: field_f_def)

subsection \<open>Changes of the error message\<close>

text \<open>
  Claim C4. From any mounted state, a sequence of \<open>n\<close> changes of \<open>errorMessage\<close>
  (every value different from the one before, the id untouched) makes exactly the \<open>n\<close>
  calls \<open>updateErrorState(id, m)\<close>, one per new value and in order, under the id the
  field has then; the id is still the same afterwards.
\<close>

theorem errorMessage_changes_reported:
  assumes "changes (errorMessage (props c)) ms"
  shows "snd (run (Some recorder) (map Set_errorMessage ms) (c, calls))
           = calls @ map (UpdateErrorState (id' (props c))) ms
         \<and> id' (props (fst (run (Some recorder) (map Set_errorMessage ms) (c, calls)))) = id' (props c)"
  using assms
proof (induction ms arbitrary: c calls)
  case Nil
  show ?case by simp
next
  case (Cons m ms)
  let ?st = "step (Some recorder) (Set_errorMessage m) (c, calls)"
  from Cons.prems have ne: "m \<noteq> errorMessage (props c)" and rest: "changes m ms" by simp_all
  from ne have calls: "snd ?st = calls @ [UpdateErrorState (id' (props c)) m]"
    by (simp add: Let_def errorMessage_watcher_def recorder_def or_else_empty)
  have p: "errorMessage (props (fst ?st)) = m" "id' (props (fst ?st)) = id' (props c)"
    by (simp_all add: Let_def)
  from rest p have "changes (errorMessage (props (fst ?st))) ms" by simp
  from Cons.IH [OF this, of "snd ?st"] calls p
  show ?case by simp
qed

text \<open>
  Three changes after mounting field \<open>f\<close>: the initial report and three updates.
\<close>

theorem errorMessage_changes_reported_witness:
  "changes (errorMessage (props mounted_f)) [''too short'', [], ''required'']
   \<and> snd (run (Some recorder) (map Set_errorMessage [''too short'', [], ''required''])
           (mount (Some recorder) field_f with_help []))
     = [UpdateErrorState ''f'' ''required'', UpdateErrorState ''f'' ''too short'',
        UpdateErrorState ''f'' [], UpdateErrorState ''f'' ''required'']"
proof -
  have h: "changes (errorMessage (props mounted_f)) [''too short'', [], ''required'']"
    by (simp add: mounted_f_def field_f_def)
  have m: "mount (Some recorder) field_f with_help [] = (mounted_f, [UpdateErrorState ''f'' ''required''])"
    by (simp add: mount_def mounted_f_def field_f_def errorMessage_watcher_def recorder_def
        or_else_def truthy_def)
  from errorMessage_changes_reported [OF h, of "[UpdateErrorState ''f'' ''required'']"] h m
  show ?thesis by (simp add: mounted_f_def field_f_def)
qed

subsection \<open>Changes of the id\<close>

text \<open>
  With an empty old id the watcher's guard \<open>oldId && props.errorMessage\<close> skips the
  clear call although the message is not empty: only the update is made.
\<close>

theorem id_change_with_error_counterexample:
  "errorMessage (props (mounted_f\<lparr>props := field_f\<lparr>id' := []\<rparr>\<rparr>)) \<noteq> []
   \<and> ''b'' \<noteq> id' (props (mounted_f\<lparr>props := field_f\<lparr>id' := []\<rparr>\<rparr>))
   \<and> snd (step (Some recorder) (Set_id ''b'') (mounted_f\<lparr>props := field_f\<lparr>id' := []\<rparr>\<rparr>, []))
       = [UpdateErrorState ''b'' ''required'']
   \<and> snd (step (Some recorder) (Set_id ''b'') (mounted_f\<lparr>props := field_f\<lparr>id' := []\<rparr>\<rparr>, []))
       \<noteq> [ClearErrorState [], UpdateErrorState ''b'' ''required'']"
  by (simp add: mounted_f_def field_f_def id_watcher_def recorder_def or_else_def truthy_def)

text \<open>
  Claim C1, amended. When the id changes from a non-empty \<open>oldId\<close> to \<open>newId\<close> while the
  message is not empty and a form context is present, exactly two calls are made, in
  this order: \<open>clearErrorState(oldId)\<close>, then \<open>updateErrorState(newId, errorMessage)\<close>.
\<close>

theorem id_change_with_error:
  assumes "id' (props c) \<noteq> []" and "newId \<noteq> id' (props c)" and "errorMessage (props c) \<noteq> []"
  shows "snd (step (Some recorder) (Set_id newId) (c, calls))
         = calls @ [ClearErrorState (id' (props c)), UpdateErrorState newId (errorMessage (props c))]"
  using assms by (simp add: id_watcher_def recorder_def or_else_def truthy_def)

text \<open>
  Field \<open>f\<close> with message \<open>required\<close> renamed to \<open>g\<close>.
\<close>

theorem id_change_with_error_witness:
  "id' (props mounted_f) \<noteq> [] \<and> ''g'' \<noteq> id' (props mounted_f) \<and> errorMessage (props mounted_f) \<noteq> []
   \<and> snd (step (Some recorder) (Set_id ''g'') (mounted_f, []))
       = [ClearErrorState ''f'', UpdateErrorState ''g'' ''required'']"
  using id_change_with_error [of mounted_f "''g''" "[]"]
  by (simp add: mounted_f_def field_f_def)

text \<open>
  Claim C5. When the id changes to \<open>newId\<close> while the message is empty and a form
  context is present, the only call made is \<open>updateErrorState(newId, "")\<close>; there is no
  \<open>clearErrorState\<close> call.
\<close>

theorem id_change_without_error:
  assumes "newId \<noteq> id' (props c)" and "errorMessage (props c) = []"
  shows "snd (step (Some recorder) (Set_id newId) (c, calls)) = calls @ [UpdateErrorState newId []]"
  using assms by (simp add: id_watcher_def recorder_def or_else_def truthy_def)

text \<open>
  Field \<open>f\<close> without a message renamed to \<open>g\<close>.
\<close>

theorem id_change_without_error_witness:
  "''g'' \<noteq> id' (props (mounted_f\<lparr>props := field_f\<lparr>errorMessage := []\<rparr>\<rparr>))
   \<and> errorMessage (props (mounted_f\<lparr>props := field_f\<lparr>errorMessage := []\<rparr>\<rparr>)) = []
   \<and> snd (step (Some recorder) (Set_id ''g'') (mounted_f\<lparr>props := field_f\<lparr>errorMessage := []\<rparr>\<rparr>, []))
       = [UpdateErrorState ''g'' []]"
  using id_change_without_error [of "''g''" "mounted_f\<lparr>props := field_f\<lparr>errorMessage := []\<rparr>\<rparr>" "[]"]
  by (simp add: mounted_f_def field_f_def)

subsection \<open>Unmounting\<close>

text \<open>
  Claim C3. Unmounting with a form context present makes exactly one call,
  \<open>clearErrorState(id)\<close> under the current id, whatever the message is (so also when it
  is not empty), and it is the last call of the whole life of the component: no
  \<open>updateErrorState\<close> call follows it.
\<close>

theorem unmount_clears_once:
  "snd (unmount (Some recorder) (c, calls)) = calls @ [ClearErrorState (id' (props c))]
   \<and> snd (lifecycle (Some recorder) p sl es [])
       = snd (run (Some recorder) es (mount (Some recorder) p sl []))
         @ [ClearErrorState (id' (props (fst (run (Some recorder) es (mount (Some recorder) p sl [])))))]"
  by (simp add: lifecycle_def unmount_def onUnmounted_hook_def recorder_def)

text \<open>
  Unmounting field \<open>f\<close> while its message is \<open>required\<close>.
\<close>

theorem unmount_clears_once_witness:
  "errorMessage (props mounted_f) \<noteq> []
   \<and> snd (unmount (Some recorder) (mounted_f, [UpdateErrorState ''f'' ''required'']))
       = [UpdateErrorState ''f'' ''required'', ClearErrorState ''f'']"
  using unmount_clears_once [of mounted_f "[UpdateErrorState ''f'' ''required'']" field_f with_help "[]"]
  by (simp add: mounted_f_def field_f_def)

subsection \<open>Without a form context\<close>

text \<open>
  Claim C8. For every props, slots and sequence of events, a life without a form
  context (\<open>inject\<close> returned \<open>null\<close>) leaves the outside state untouched, so no
  \<open>updateErrorState\<close> or \<open>clearErrorState\<close> call is made, and the component itself is in
  the same state as in the same life with any form context present: same props and
  slots, same rendered output, same emitted events, before and after unmounting.
\<close>

theorem standalone_same_behaviour:
  "snd (lifecycle None p sl es s) = s
   \<and> fst (lifecycle None p sl es s) = fst (lifecycle (Some f) p sl es s')
   \<and> fst (run None es (mount None p sl s)) = fst (run (Some f) es (mount (Some f) p sl s'))
   \<and> render (props (fst (run None es (mount None p sl s))))
             (slots (fst (run None es (mount None p sl s))))
             (describedBy_value (fst (run None es (mount None p sl s))))
     = render (props (fst (run (Some f) es (mount (Some f) p sl s'))))
              (slots (fst (run (Some f) es (mount (Some f) p sl s'))))
              (describedBy_value (fst (run (Some f) es (mount (Some f) p sl s'))))
   \<and> emitted (fst (run None es (mount None p sl s)))
     = emitted (fst (run (Some f) es (mount (Some f) p sl s')))"
proof -
  have r: "fst (run None es (mount None p sl s)) = fst (run (Some f) es (mount (Some f) p sl s'))"
    unfolding mount_def by (rule fst_run_indep)
  have n: "snd (run None es (mount None p sl s)) = s"
    unfolding mount_def errorMessage_watcher_def by (simp add: snd_run_None)
  from r n show ?thesis
    by (simp add: lifecycle_def unmount_def onUnmounted_hook_def)
qed

text \<open>
  A life of field \<open>f\<close> run without a form context and against the recorder.
\<close>

theorem standalone_same_behaviour_witness:
  "snd (lifecycle None field_f with_help
          [Set_errorMessage ''too short'', Set_id ''g'', Assign_value (NumberValue 3)]
          ([] :: aggregator_call list)) = []
   \<and> fst (lifecycle None field_f with_help
            [Set_errorMessage ''too short'', Set_id ''g'', Assign_value (NumberValue 3)]
            ([] :: aggregator_call list))
     = fst (lifecycle (Some recorder) field_f with_help
              [Set_errorMessage ''too short'', Set_id ''g'', Assign_value (NumberValue 3)] [])"
  using standalone_same_behaviour
          [of field_f with_help
              "[Set_errorMessage ''too short'', Set_id ''g'', Assign_value (NumberValue 3)]"
              "[] :: aggregator_call list" recorder "[]"]
  by blast

section \<open>The controlled value\<close>

text \<open>
  Claim C9. Reading the \<open>value\<close> computed gives the current \<open>modelValue\<close> prop, also
  after an assignment and after the parent has passed a new \<open>modelValue\<close>; assigning
  to it appends exactly one \<open>update:modelValue\<close> event carrying the new value and
  changes neither the props nor anything else.
\<close>

theorem value_is_controlled:
  "value_get (props c) = modelValue (props c)
   \<and> step allyForm (Assign_value v) (c, s) = (c\<lparr>emitted := emitted c @ [Update_modelValue v]\<rparr>, s)
   \<and> props (fst (step allyForm (Assign_value v) (c, s))) = props c
   \<and> value_get (props (fst (step allyForm (Assign_value v) (c, s)))) = modelValue (props c)
   \<and> value_get (props (fst (step allyForm (Set_modelValue v) (c, s)))) = v"
  by (simp add: value_get_def value_set_def)

text \<open>
  Assigning \<open>Grace\<close> to the value of field \<open>f\<close>, whose \<open>modelValue\<close> is \<open>Ada\<close>.
\<close>

theorem value_is_controlled_witness:
  "value_get (props mounted_f) = StringValue ''Ada''
   \<and> step (Some recorder) (Assign_value (StringValue ''Grace'')) (mounted_f, [])
       = (mounted_f\<lparr>emitted := [Update_modelValue (StringValue ''Grace'')]\<rparr>, [])"
  using value_is_controlled [of mounted_f "Some recorder" "StringValue ''Grace''" "[]"]
  by (simp add: mounted_f_def field_f_def)

section \<open>The description list\<close>

text \<open>
  \<open>Array.from(new Set(ids))\<close> is order-preserving deduplication, the entries joined
  are never empty, and splitting a join of space-free, non-empty words gives the words
  back.
\<close>

lemma set_dedup: "set (dedup xs) = set xs"
  by (induction xs rule: dedup.induct) auto

lemma distinct_dedup: "distinct (dedup xs)"
  by (induction xs rule: dedup.induct) (auto simp: set_dedup)

lemma foldl_Set_add: "foldl Set_add acc xs = acc @ dedup (filter (\<lambda>x. x \<notin> set acc) xs)"
proof (induction xs arbitrary: acc)
  case Nil
  show ?case by simp
next
  case (Cons x xs)
  show ?case
  proof (cases "x \<in> set acc")
    case True
    with Cons.IH [of acc] show ?thesis by (simp add: Set_add_def)
  next
    case False
    have "filter (\<lambda>y. y \<notin> set (acc @ [x])) xs = filter (\<lambda>y. y \<noteq> x) (filter (\<lambda>y. y \<notin> set acc) xs)"
      by (induction xs) auto
    with False Cons.IH [of "acc @ [x]"] show ?thesis by (simp add: Set_add_def)
  qed
qed

lemma Array_from_Set_dedup: "Array_from_Set xs = dedup xs"
  using foldl_Set_add [of "[]" xs] by (simp add: Array_from_Set_def)

lemma ids_spec_list: "ids p sl = filter (\<lambda>t. t \<noteq> []) (spec_list p sl)"
  by (cases "ariaDescribedby p")
     (simp_all add: ids_def spec_list_def helpTextId_def errorTextId_def isInvalid_def truthy_def)

lemma uniqueIds_spec_list:
  "uniqueIds p sl
   = filter (\<lambda>t. t \<noteq> id' p @ ''-label'') (dedup (filter (\<lambda>t. t \<noteq> []) (spec_list p sl)))"
  by (simp add: uniqueIds_def Array_from_Set_dedup ids_spec_list labelId_def)

lemma distinct_uniqueIds: "distinct (uniqueIds p sl)"
  by (simp add: uniqueIds_def Array_from_Set_dedup distinct_dedup)

lemma labelId_notin_uniqueIds: "labelId p \<notin> set (uniqueIds p sl)"
  by (simp add: uniqueIds_def)

lemma uniqueIds_nonempty_entries: "t \<in> set (uniqueIds p sl) \<Longrightarrow> t \<noteq> []"
  by (simp add: uniqueIds_spec_list set_dedup)

lemma join_eq_Nil: "(\<And>t. t \<in> set ts \<Longrightarrow> t \<noteq> []) \<Longrightarrow> (join sep ts = []) = (ts = [])"
  by (induction sep ts rule: join.induct) auto

lemma split_tokens_word:
  "no_space w \<Longrightarrow> split_tokens cur (w @ rest) = split_tokens (cur @ w) rest"
  by (induction w arbitrary: cur) (simp_all add: no_space_def)

lemma is_space_blank: "is_space (CHR '' '')"
  by (simp add: is_space_def)

lemma split_tokens_join:
  "(\<And>t. t \<in> set ts \<Longrightarrow> t \<noteq> [] \<and> no_space t) \<Longrightarrow> split_tokens [] (join '' '' ts) = ts"
proof (induction "'' ''" ts rule: join.induct)
  case 1
  show ?case by simp
next
  case (2 x)
  then have "x \<noteq> []" and "no_space x" by simp_all
  with split_tokens_word [of x "[]" "[]"] show ?case by simp
next
  case (3 x y ys)
  then have x: "x \<noteq> []" "no_space x" by simp_all
  from 3 have ih: "split_tokens [] (join '' '' (y # ys)) = y # ys" by simp
  from x split_tokens_word [of x "[]" "'' '' @ join '' '' (y # ys)"]
  have "split_tokens [] (join '' '' (x # y # ys)) = split_tokens x ('' '' @ join '' '' (y # ys))"
    by simp
  also from x ih have "\<dots> = x # y # ys" by (simp add: is_space_blank)
  finally show ?case .
qed

lemma no_space_suffix:
  "no_space (i @ ''-help'') = no_space i" "no_space (i @ ''-error'') = no_space i"
  by (simp_all add: no_space_def is_space_def)

lemma uniqueIds_no_space:
  assumes "no_space (id' p)" and "case ariaDescribedby p of None \<Rightarrow> True | Some e \<Rightarrow> no_space e"
    and "t \<in> set (uniqueIds p sl)"
  shows "no_space t"
  using assms
  by (auto simp: uniqueIds_spec_list set_dedup spec_list_def no_space_suffix
      split: option.splits if_splits)

text \<open>
  Claim C6. The comment above the computed says it avoids duplicate ids and ignores
  the label id, and the claim says \<open>describedBy\<close> never contains the token \<open>labelId\<close> nor
  a duplicate token. Mounted with id \<open>f\<close>, help content, an error and
  \<open>ariaDescribedby = "f-label f-help"\<close>, the component exposes
  \<open>"f-label f-help f-help f-error"\<close>: the token \<open>f-label\<close> is in it and \<open>f-help\<close> is there
  twice. The prop is compared as one entry and never split into its tokens.
\<close>

theorem describedBy_label_and_duplicate_tokens:
  "describedBy_value (fst (mount None (field_f\<lparr>ariaDescribedby := Some ''f-label f-help''\<rparr>) with_help ()))
     = Some ''f-label f-help f-help f-error''
   \<and> labelId (field_f\<lparr>ariaDescribedby := Some ''f-label f-help''\<rparr>)
       \<in> set (tokens (describedBy_value
                 (fst (mount None (field_f\<lparr>ariaDescribedby := Some ''f-label f-help''\<rparr>) with_help ()))))
   \<and> \<not> distinct (tokens (describedBy_value
                 (fst (mount None (field_f\<lparr>ariaDescribedby := Some ''f-label f-help''\<rparr>) with_help ()))))"
  by (simp add: mount_def describedBy_value_def describedBy_evaluate_def describedBy_def
      uniqueIds_def ids_def Array_from_Set_def Set_add_def
      helpTextId_def errorTextId_def labelId_def isInvalid_def truthy_def field_f_def
      with_help_def tokens_def is_space_def)

text \<open>
  What the getter does guarantee: the entries it joins never include \<open>labelId\<close> and never
  repeat, and when neither the id nor \<open>ariaDescribedby\<close> contains whitespace the tokens of
  the result are exactly these entries.
\<close>

lemma single_token_entries:
  "distinct (uniqueIds p sl) \<and> labelId p \<notin> set (uniqueIds p sl)
   \<and> (no_space (id' p) \<and> (case ariaDescribedby p of None \<Rightarrow> True | Some e \<Rightarrow> no_space e)
        \<longrightarrow> tokens (describedBy p sl) = uniqueIds p sl
            \<and> distinct (tokens (describedBy p sl))
            \<and> labelId p \<notin> set (tokens (describedBy p sl)))"
proof -
  have "tokens (describedBy p sl) = uniqueIds p sl"
    if a: "no_space (id' p)" and b: "case ariaDescribedby p of None \<Rightarrow> True | Some e \<Rightarrow> no_space e"
  proof (cases "uniqueIds p sl = []")
    case True
    then show ?thesis by (simp add: describedBy_def tokens_def)
  next
    case False
    have "split_tokens [] (join '' '' (uniqueIds p sl)) = uniqueIds p sl"
      by (rule split_tokens_join) (simp add: uniqueIds_nonempty_entries uniqueIds_no_space [OF a b])
    with False show ?thesis by (simp add: describedBy_def tokens_def)
  qed
  then show ?thesis
    by (simp add: distinct_uniqueIds labelId_notin_uniqueIds)
qed

subsection \<open>When the computed is evaluated\<close>

text \<open>
  An evaluation is skipped only when it would give what the computed already holds on
  the slots it saw: as long as the presence of help content does not change, the
  computed holds what its getter gives on the current props and slots.
\<close>

lemma Array_from_Set_Nil: "(Array_from_Set xs = []) = (xs = [])"
  by (cases xs) (simp_all add: Array_from_Set_dedup)

lemmas getter_defs = describedBy_evaluate_def describedBy_def uniqueIds_def ids_def
  helpTextId_def errorTextId_def labelId_def isInvalid_def

lemma evaluate_errorMessage_same:
  "isInvalid (p\<lparr>errorMessage := m\<rparr>) = isInvalid p
   \<Longrightarrow> describedBy_evaluate (p\<lparr>errorMessage := m\<rparr>) sl = describedBy_evaluate p sl"
  by (simp add: getter_defs)

lemma evaluate_id_unread:
  "\<not> reads_id (describedBy_evaluate p sl)
   \<Longrightarrow> describedBy_evaluate (p\<lparr>id' := i\<rparr>) sl = describedBy_evaluate p sl"
proof -
  assume "\<not> reads_id (describedBy_evaluate p sl)"
  then have h: "\<not> helptext sl" "\<not> isInvalid p" "ids p sl = []"
    by (simp_all add: describedBy_evaluate_def Array_from_Set_Nil)
  from h have i: "ids (p\<lparr>id' := i\<rparr>) sl = []"
    by (simp add: ids_def isInvalid_def)
  from h have v: "isInvalid (p\<lparr>id' := i\<rparr>) = isInvalid p"
    by (simp add: isInvalid_def)
  from h i v show ?thesis
    by (simp add: describedBy_evaluate_def describedBy_def uniqueIds_def Array_from_Set_def)
qed

lemma evaluate_other_props:
  "describedBy_evaluate (p\<lparr>label := l\<rparr>) sl = describedBy_evaluate p sl"
  "describedBy_evaluate (p\<lparr>modelValue := v\<rparr>) sl = describedBy_evaluate p sl"
  "describedBy_evaluate (p\<lparr>required := r\<rparr>) sl = describedBy_evaluate p sl"
  "describedBy_evaluate (p\<lparr>reserveErrorSpace := r\<rparr>) sl = describedBy_evaluate p sl"
  "describedBy_evaluate (p\<lparr>autocomplete := a\<rparr>) sl = describedBy_evaluate p sl"
  by (simp_all add: getter_defs)

lemma fresh_mount: "fresh (fst (mount af p sl s))"
  by (simp add: mount_def fresh_def)

lemma fresh_step:
  assumes "fresh c" and "helptext_kept (helptext (slots c)) [e]"
  shows "fresh (fst (step af e (c, s))) \<and> slots (fst (step af e (c, s))) = slots c"
proof (cases e)
  case (Set_id i)
  with assms(1) show ?thesis
    by (auto simp: Let_def fresh_def describedBy_refresh_def evaluate_id_unread)
next
  case (Set_errorMessage m)
  with assms(1) show ?thesis
    by (auto simp: Let_def fresh_def describedBy_refresh_def evaluate_errorMessage_same)
next
  case (Set_ariaDescribedby a)
  with assms(1) show ?thesis
    by (cases "a = ariaDescribedby (props c)") (simp_all add: fresh_def describedBy_refresh_def)
next
  case (Set_helptext h)
  with assms show ?thesis by (simp add: fresh_def)
qed (use assms(1) in \<open>simp_all add: fresh_def evaluate_other_props\<close>)

lemma fresh_run:
  "fresh c \<Longrightarrow> helptext_kept (helptext (slots c)) es
   \<Longrightarrow> fresh (fst (run af es (c, s))) \<and> slots (fst (run af es (c, s))) = slots c"
proof (induction es arbitrary: c s)
  case Nil
  then show ?case by simp
next
  case (Cons e es)
  from Cons.prems(2) have k: "helptext_kept (helptext (slots c)) [e]"
    and r: "helptext_kept (helptext (slots c)) es"
    by (cases e; simp)+
  obtain c1 s1 where st: "step af e (c, s) = (c1, s1)" by (cases "step af e (c, s)")
  with fresh_step [OF Cons.prems(1) k, of af s]
  have f: "fresh c1" and sl: "slots c1 = slots c" by simp_all
  from r sl have "helptext_kept (helptext (slots c1)) es" by simp
  from Cons.IH [OF f this, of s1] st sl show ?case by simp
qed

lemma fresh_value: "fresh c \<Longrightarrow> describedBy_value c = describedBy (props c) (slots c)"
  by (simp add: fresh_def describedBy_value_def describedBy_evaluate_def)

text \<open>
  After help content is added to a field mounted without it, the template renders the
  help element, and the computed still holds the value of its evaluation at mount.
\<close>

lemma describedBy_stale_after_helptext_added:
  "describedBy_value (fst (run None [Set_helptext True] (mount None field_f no_help ())))
     = Some ''ext1 f-error''
   \<and> describedBy (props (fst (run None [Set_helptext True] (mount None field_f no_help ()))))
                  (slots (fst (run None [Set_helptext True] (mount None field_f no_help ()))))
     = Some ''ext1 f-help f-error''
   \<and> helptext_element_id
         (render (props (fst (run None [Set_helptext True] (mount None field_f no_help ()))))
                 (slots (fst (run None [Set_helptext True] (mount None field_f no_help ()))))
                 (describedBy_value (fst (run None [Set_helptext True] (mount None field_f no_help ())))))
     = Some ''f-help''"
  by (simp add: mount_def render_def describedBy_value_def describedBy_evaluate_def describedBy_def
      uniqueIds_def ids_def Array_from_Set_def Set_add_def helpTextId_def errorTextId_def
      labelId_def isInvalid_def truthy_def field_f_def no_help_def)

text \<open>
  With no candidate at all the result is \<open>undefined\<close> where the join of the empty
  list is the empty string; with an empty \<open>ariaDescribedby\<close> the result is
  \<open>"f-help f-error"\<close> where the join of the list starts with a space.
\<close>

theorem describedBy_join_counterexample:
  "describedBy (field_f\<lparr>ariaDescribedby := None, errorMessage := []\<rparr>) no_help = None
   \<and> spec_join (field_f\<lparr>ariaDescribedby := None, errorMessage := []\<rparr>) no_help = []
   \<and> describedBy (field_f\<lparr>ariaDescribedby := None, errorMessage := []\<rparr>) no_help
       \<noteq> Some (spec_join (field_f\<lparr>ariaDescribedby := None, errorMessage := []\<rparr>) no_help)
   \<and> describedBy (field_f\<lparr>ariaDescribedby := Some []\<rparr>) with_help = Some ''f-help f-error''
   \<and> spec_join (field_f\<lparr>ariaDescribedby := Some []\<rparr>) with_help = '' f-help f-error''
   \<and> describedBy (field_f\<lparr>ariaDescribedby := Some []\<rparr>) with_help
       \<noteq> Some (spec_join (field_f\<lparr>ariaDescribedby := Some []\<rparr>) with_help)"
  by (simp add: describedBy_def uniqueIds_def ids_def Array_from_Set_def Set_add_def
      helpTextId_def errorTextId_def labelId_def isInvalid_def truthy_def field_f_def
      with_help_def no_help_def spec_join_def spec_list_def)

text \<open>
  Claim C7, amended. Whenever \<open>describedBy\<close> is evaluated, its value is the
  deduplicated, order-preserving, space-separated join of the non-empty entries of
  \<open>[ariaDescribedby, helpTextId if help content is present, errorTextId if errorMessage
  is non-empty]\<close> with \<open>labelId\<close> excluded, when at least one entry remains, and
  \<open>undefined\<close> otherwise; so unless \<open>ariaDescribedby\<close> is the empty string, it is the
  join of the list as the specification words it, with \<open>undefined\<close> in place of the
  empty join. Through every sequence of events that leaves the presence of help content
  as it was at mount, the value the component exposes is this value on the current
  props and slots. What it exposes after help content has appeared or disappeared is
  not part of the statement.
\<close>

theorem describedBy_join:
  "describedBy p sl
     = (let ts = filter (\<lambda>t. t \<noteq> id' p @ ''-label'')
                   (dedup (filter (\<lambda>t. t \<noteq> []) (spec_list p sl)))
        in if ts = [] then None else Some (join '' '' ts))
   \<and> (ariaDescribedby p \<noteq> Some []
        \<longrightarrow> describedBy p sl = (if spec_join p sl = [] then None else Some (spec_join p sl)))
   \<and> (helptext_kept (helptext sl) es
        \<longrightarrow> describedBy_value (fst (run af es (mount af p sl s)))
            = describedBy (props (fst (run af es (mount af p sl s))))
                          (slots (fst (run af es (mount af p sl s)))))"
proof -
  have 1: "describedBy p sl
     = (let ts = filter (\<lambda>t. t \<noteq> id' p @ ''-label'')
                   (dedup (filter (\<lambda>t. t \<noteq> []) (spec_list p sl)))
        in if ts = [] then None else Some (join '' '' ts))"
    by (simp add: describedBy_def uniqueIds_spec_list Let_def)
  have 2: "describedBy p sl = (if spec_join p sl = [] then None else Some (spec_join p sl))"
    if a: "ariaDescribedby p \<noteq> Some []"
  proof -
    from a have "filter (\<lambda>t. t \<noteq> []) (spec_list p sl) = spec_list p sl"
      by (auto simp: spec_list_def split: option.splits)
    then have u: "uniqueIds p sl = filter (\<lambda>t. t \<noteq> id' p @ ''-label'') (dedup (spec_list p sl))"
      by (simp add: uniqueIds_spec_list)
    have "(join '' '' (uniqueIds p sl) = []) = (uniqueIds p sl = [])"
      by (rule join_eq_Nil) (rule uniqueIds_nonempty_entries)
    with u show ?thesis
      by (simp add: describedBy_def spec_join_def)
  qed
  have 3: "describedBy_value (fst (run af es (mount af p sl s)))
            = describedBy (props (fst (run af es (mount af p sl s))))
                          (slots (fst (run af es (mount af p sl s))))"
    if k: "helptext_kept (helptext sl) es"
  proof -
    obtain c0 s0 where m: "mount af p sl s = (c0, s0)" by (cases "mount af p sl s")
    with fresh_mount [of af p sl s] have f: "fresh c0" by simp
    from m have "slots c0 = sl" by (auto simp: mount_def)
    with k have "helptext_kept (helptext (slots c0)) es" by simp
    from fresh_run [OF f this, of af s0] m show ?thesis by (simp add: fresh_value)
  qed
  from 1 2 3 show ?thesis by blast
qed

text \<open>
  Field \<open>f\<close> with \<open>ext1\<close>, help content and an error: \<open>"ext1 f-help f-error"\<close> at mount,
  and \<open>"ext1 g-help g-error"\<close> once it is renamed to \<open>g\<close>.
\<close>

theorem describedBy_join_witness:
  "ariaDescribedby field_f \<noteq> Some []
   \<and> helptext_kept (helptext with_help) [Set_id ''g'' :: int event]
   \<and> describedBy field_f with_help = Some (spec_join field_f with_help)
   \<and> describedBy field_f with_help = Some ''ext1 f-help f-error''
   \<and> describedBy_value (fst (run None [Set_id ''g''] (mount None field_f with_help ())))
       = Some ''ext1 g-help g-error''"
proof -
  have h: "ariaDescribedby field_f \<noteq> Some []"
    by (simp add: field_f_def)
  have k: "helptext_kept (helptext with_help) [Set_id ''g'' :: int event]"
    by simp
  have j: "spec_join field_f with_help = ''ext1 f-help f-error''"
    by (simp add: spec_join_def spec_list_def field_f_def with_help_def)
  have g: "describedBy (props (fst (run None [Set_id ''g''] (mount None field_f with_help ()))))
                       (slots (fst (run None [Set_id ''g''] (mount None field_f with_help ()))))
           = Some ''ext1 g-help g-error''"
    by (simp add: mount_def Let_def describedBy_def uniqueIds_def ids_def Array_from_Set_def
        Set_add_def helpTextId_def errorTextId_def labelId_def isInvalid_def truthy_def
        field_f_def with_help_def)
  from describedBy_join [of field_f with_help "[Set_id ''g'']" None "()"]
  have "(ariaDescribedby field_f \<noteq> Some []
          \<longrightarrow> describedBy field_f with_help
              = (if spec_join field_f with_help = [] then None
                 else Some (spec_join field_f with_help)))
        \<and> (helptext_kept (helptext with_help) [Set_id ''g'' :: int event]
          \<longrightarrow> describedBy_value (fst (run None [Set_id ''g''] (mount None field_f with_help ())))
              = describedBy (props (fst (run None [Set_id ''g''] (mount None field_f with_help ()))))
                            (slots (fst (run None [Set_id ''g''] (mount None field_f with_help ())))))"
    by (rule conjunct2)
  with h k j g show ?thesis by simp
qed

text \<open>
  Claim C10. When no entry remains after filtering, \<open>describedBy\<close> is \<open>undefined\<close>;
  it is never the empty string. This is the case when there is no help content, the
  message is empty and \<open>ariaDescribedby\<close> is absent, empty or equal to \<open>labelId\<close>.
\<close>

theorem describedBy_undefined_when_empty:
  "(uniqueIds p sl = [] \<longrightarrow> describedBy p sl = None)
   \<and> describedBy p sl \<noteq> Some []
   \<and> ((ariaDescribedby p = None \<or> ariaDescribedby p = Some [] \<or> ariaDescribedby p = Some (labelId p))
        \<and> \<not> helptext sl \<and> errorMessage p = []
       \<longrightarrow> describedBy p sl = None)"
proof -
  have 1: "uniqueIds p sl = [] \<longrightarrow> describedBy p sl = None"
    by (simp add: describedBy_def)
  have "(join '' '' (uniqueIds p sl) = []) = (uniqueIds p sl = [])"
    by (rule join_eq_Nil) (rule uniqueIds_nonempty_entries)
  then have 2: "describedBy p sl \<noteq> Some []"
    by (simp add: describedBy_def Let_def)
  have 3: "describedBy p sl = None"
    if "(ariaDescribedby p = None \<or> ariaDescribedby p = Some [] \<or> ariaDescribedby p = Some (labelId p))
        \<and> \<not> helptext sl \<and> errorMessage p = []"
    using that
    by (auto simp: describedBy_def uniqueIds_def ids_def Array_from_Set_def Set_add_def
        isInvalid_def truthy_def)
  from 1 2 3 show ?thesis by blast
qed

text \<open>
  Field \<open>f\<close> with \<open>ariaDescribedby = "f-label"\<close>, no help content and no error.
\<close>

theorem describedBy_undefined_when_empty_witness:
  "uniqueIds (field_f\<lparr>ariaDescribedby := Some ''f-label'', errorMessage := []\<rparr>) no_help = []
   \<and> describedBy (field_f\<lparr>ariaDescribedby := Some ''f-label'', errorMessage := []\<rparr>) no_help = None"
proof -
  have h: "ariaDescribedby (field_f\<lparr>ariaDescribedby := Some ''f-label'', errorMessage := []\<rparr>)
             = Some (labelId (field_f\<lparr>ariaDescribedby := Some ''f-label'', errorMessage := []\<rparr>))
           \<and> \<not> helptext no_help
           \<and> errorMessage (field_f\<lparr>ariaDescribedby := Some ''f-label'', errorMessage := []\<rparr>) = []"
    by (simp add: field_f_def labelId_def no_help_def)
  have u: "uniqueIds (field_f\<lparr>ariaDescribedby := Some ''f-label'', errorMessage := []\<rparr>) no_help = []"
    by (simp add: uniqueIds_def ids_def Array_from_Set_def Set_add_def labelId_def isInvalid_def
        truthy_def field_f_def no_help_def)
  from describedBy_undefined_when_empty
         [of "field_f\<lparr>ariaDescribedby := Some ''f-label'', errorMessage := []\<rparr>" no_help] h u
  show ?thesis by blast
qed

end
